theory Spec2Isabelle
  imports Main "HOL-Library.Char_ord" "HOL-Library.List_Lexorder"
begin

section \<open>RaktSetu: inventory ledger, donor reminders and hospital search\<close>

text \<open>
  The development embeds the Mongoose models \<open>BloodInventory\<close>, \<open>Notification\<close> and
  \<open>Hospital\<close> and the hospital-staff routes of the Express backend. A collection is the
  list of its documents in insertion order, every operation takes the collection and
  returns the new one, a thrown \<open>Error\<close> or a non-2xx response is a value of type
  \<open>error\<close>, and the wall clock (\<open>new Date()\<close>) is a parameter \<open>now\<close>, in milliseconds
  since the epoch. A unit count is a JavaScript number with an integer value: the routes
  only let the result of \<open>parseInt\<close> through. It is the integer of HOL that the double
  stands for, and a sum or difference of two counts is rounded as a double rounds it.
  The \<open>createdAt\<close> and \<open>updatedAt\<close> stamps that Mongoose maintains by itself are not
  part of the model.
\<close>

subsection \<open>Blood groups and errors\<close>

datatype blood_group = A_pos | A_neg | B_pos | B_neg | AB_pos | AB_neg | O_pos | O_neg

text \<open>The labels of the schema's \<open>enum\<close>; a request names a blood group by its label.\<close>

fun label :: "blood_group \<Rightarrow> string" where
  "label A_pos = ''A+''"
| "label A_neg = ''A-''"
| "label B_pos = ''B+''"
| "label B_neg = ''B-''"
| "label AB_pos = ''AB+''"
| "label AB_neg = ''AB-''"
| "label O_pos = ''O+''"
| "label O_neg = ''O-''"

datatype error =
    FieldsRequired              \<comment> \<open>'Blood group and units are required'\<close>
  | UnitsNotPositive            \<comment> \<open>'Units must be a positive number'\<close>
  | UnitsNegative               \<comment> \<open>'Units cannot be negative'\<close>
  | NoInventory blood_group     \<comment> \<open>'No inventory found for blood group ...' (the spec's NotFound)\<close>
  | InsufficientStock int       \<comment> \<open>'Insufficient stock. Only n units available.'\<close>
  | ValidationFailed            \<comment> \<open>a schema validator of Mongoose rejected the document\<close>
  | CastError                   \<comment> \<open>Mongoose could not cast a value of a query to the type of its path\<close>
  | DonorIdRequired             \<comment> \<open>'Donor ID is required'\<close>
  | DonorNotFound               \<comment> \<open>'Donor not found'\<close>
  | ServerError                 \<comment> \<open>the generic message of a route's catch block\<close>

text \<open>A failed response is its HTTP status with the error; a successful one is its data.\<close>

type_synonym 'a response = "(nat \<times> error) + 'a"

subsection \<open>The BloodInventory model\<close>

record inventory =
  inv_id :: nat
  hospital_id :: nat
  blood_group :: blood_group
  units_available :: int
  last_updated :: int
  min_threshold :: int

definition isLowStock :: "inventory \<Rightarrow> bool" where
  "isLowStock r = (units_available r \<le> min_threshold r)"

text \<open>
  \<open>find({hospital_id}).sort({blood_group: 1})\<close>: the documents of the hospital, ordered
  by the label as a string (the byte order of MongoDB's default collation).
\<close>

definition getHospitalInventory :: "nat \<Rightarrow> inventory list \<Rightarrow> inventory list" where
  "getHospitalInventory h db =
     sort_key (\<lambda>r. label (blood_group r)) (filter (\<lambda>r. hospital_id r = h) db)"

definition findOne :: "nat \<Rightarrow> blood_group \<Rightarrow> inventory list \<Rightarrow> inventory option" where
  "findOne h bg db = find (\<lambda>r. hospital_id r = h \<and> blood_group r = bg) db"

text \<open>A fresh \<open>_id\<close>: larger than every \<open>_id\<close> in use.\<close>

fun fresh_id :: "nat list \<Rightarrow> nat" where
  "fresh_id [] = 0"
| "fresh_id (i # ids) = max (Suc i) (fresh_id ids)"

text \<open>The validator \<open>min: [0, 'Units cannot be negative']\<close> of \<open>units_available\<close>.\<close>

definition validate_units :: "int \<Rightarrow> bool" where
  "validate_units u = (0 \<le> u)"

text \<open>
  Arithmetic on counts is arithmetic on doubles: the exact sum or difference of two
  integer-valued doubles, rounded to the nearest number with a significand of 53 bits,
  a tie going to the even significand. Up to \<open>2 ^ 53\<close> nothing is rounded. The values
  are finite: \<open>Infinity\<close>, which \<open>parseInt\<close> gives for more than 308 digits, has no
  integer to stand for it.
\<close>

fun bit_length :: "nat \<Rightarrow> nat" where
  "bit_length n = (if n = 0 then 0 else Suc (bit_length (n div 2)))"

declare bit_length.simps [simp del]

definition to_double :: "int \<Rightarrow> int" where
  "to_double x =
     (let m = \<bar>x\<bar>;
          e = bit_length (nat m) - 53;
          q = m div 2 ^ e;
          r = m mod 2 ^ e;
          up = (2 * r > 2 ^ e \<or> (2 * r = 2 ^ e \<and> odd q))
      in sgn x * ((if up then q + 1 else q) * 2 ^ e))"

text \<open>
  \<open>BloodInventory.create\<close> with the fields the callers give; \<open>min_threshold\<close> takes its
  default 2. The callers create a document only after a query found none for the pair,
  so the unique index on (hospital_id, blood_group) never rejects the insert.
\<close>

definition create :: "int \<Rightarrow> nat \<Rightarrow> blood_group \<Rightarrow> int \<Rightarrow> inventory list
    \<Rightarrow> (error + inventory) \<times> inventory list" where
  "create now h bg units db =
     (if \<not> validate_units units then (Inl ValidationFailed, db)
      else let doc = \<lparr>inv_id = fresh_id (map inv_id db), hospital_id = h, blood_group = bg,
                       units_available = units, last_updated = now, min_threshold = 2\<rparr>
           in (Inr doc, db @ [doc]))"

text \<open>\<open>doc.save()\<close>: validates, then writes the document over the one with its \<open>_id\<close>.\<close>

definition save :: "inventory \<Rightarrow> inventory list \<Rightarrow> (error + inventory) \<times> inventory list" where
  "save doc db =
     (if \<not> validate_units (units_available doc) then (Inl ValidationFailed, db)
      else (Inr doc, map (\<lambda>r. if inv_id r = inv_id doc then doc else r) db))"

text \<open>
  \<open>findOneAndUpdate\<close> with \<open>upsert\<close>, \<open>new\<close> and \<open>runValidators\<close>: the update
  validators check the new \<open>units_available\<close>; the first matching document is
  overwritten in the two fields of the update, and when there is none a document is
  inserted from the query, the update and the schema defaults.
\<close>

definition upsertInventory :: "int \<Rightarrow> nat \<Rightarrow> blood_group \<Rightarrow> int \<Rightarrow> inventory list
    \<Rightarrow> (error + inventory) \<times> inventory list" where
  "upsertInventory now h bg units db =
     (if \<not> validate_units units then (Inl ValidationFailed, db)
      else case findOne h bg db of
        Some r \<Rightarrow>
          (let doc = r\<lparr>units_available := units, last_updated := now\<rparr>
           in (Inr doc, map (\<lambda>x. if inv_id x = inv_id doc then doc else x) db))
      | None \<Rightarrow>
          (let doc = \<lparr>inv_id = fresh_id (map inv_id db), hospital_id = h, blood_group = bg,
                       units_available = units, last_updated = now, min_threshold = 2\<rparr>
           in (Inr doc, db @ [doc])))"

definition addUnits :: "int \<Rightarrow> nat \<Rightarrow> blood_group \<Rightarrow> int \<Rightarrow> inventory list
    \<Rightarrow> (error + inventory) \<times> inventory list" where
  "addUnits now h bg unitsToAdd db =
     (case findOne h bg db of
        Some r \<Rightarrow>
          save (r\<lparr>units_available := to_double (units_available r + unitsToAdd),
                  last_updated := now\<rparr>) db
      | None \<Rightarrow> create now h bg unitsToAdd db)"

definition reduceUnits :: "int \<Rightarrow> nat \<Rightarrow> blood_group \<Rightarrow> int \<Rightarrow> inventory list
    \<Rightarrow> (error + inventory) \<times> inventory list" where
  "reduceUnits now h bg unitsToReduce db =
     (case findOne h bg db of
        None \<Rightarrow> (Inl (NoInventory bg), db)
      | Some r \<Rightarrow>
          if units_available r < unitsToReduce
          then (Inl (InsufficientStock (units_available r)), db)
          else save (r\<lparr>units_available := to_double (units_available r - unitsToReduce),
                        last_updated := now\<rparr>) db)"

subsection \<open>The inventory routes\<close>

text \<open>
  The \<open>units\<close> field of a request body: absent (\<open>undefined\<close>), present with
  \<open>parseInt\<close> giving \<open>NaN\<close>, or present with \<open>parseInt\<close> giving a number, whose
  integer value \<open>Parsed\<close> carries. The
  \<open>blood_group\<close> field is \<open>None\<close> when it is missing or empty, and otherwise one of the
  eight labels. The handlers run behind \<open>protect\<close> and \<open>isHospitalStaff\<close>, which hand
  them the hospital user; \<open>h\<close> is its \<open>_id\<close>.
\<close>

datatype body_units = Absent | Unparsable | Parsed int

record inventory_view =
  view_id :: nat
  view_blood_group :: string
  view_units_available :: int
  view_last_updated :: int
  view_is_low_stock :: bool
  view_min_threshold :: int

definition format_item :: "inventory \<Rightarrow> inventory_view" where
  "format_item item =
     \<lparr>view_id = inv_id item, view_blood_group = label (blood_group item),
      view_units_available = units_available item, view_last_updated = last_updated item,
      view_is_low_stock = isLowStock item, view_min_threshold = min_threshold item\<rparr>"

definition bloodGroups :: "blood_group list" where
  "bloodGroups = [A_pos, A_neg, B_pos, B_neg, AB_pos, AB_neg, O_pos, O_neg]"

text \<open>The seeding loop of \<open>GET /inventory\<close>; a rejected \<open>create\<close> ends it.\<close>

fun seed_defaults :: "int \<Rightarrow> nat \<Rightarrow> blood_group list \<Rightarrow> inventory list
    \<Rightarrow> error option \<times> inventory list" where
  "seed_defaults now h [] db = (None, db)"
| "seed_defaults now h (bg # bgs) db =
     (case create now h bg 0 db of
        (Inl e, db') \<Rightarrow> (Some e, db')
      | (Inr _, db') \<Rightarrow> seed_defaults now h bgs db')"

definition get_inventory :: "int \<Rightarrow> nat \<Rightarrow> inventory list
    \<Rightarrow> inventory_view list response \<times> inventory list" where
  "get_inventory now h db =
     (let inventory = getHospitalInventory h db in
      if length inventory = 0
      then (case seed_defaults now h bloodGroups db of
              (Some e, db') \<Rightarrow> (Inl (500, ServerError), db')
            | (None, db') \<Rightarrow> (Inr (map format_item (getHospitalInventory h db')), db'))
      else (Inr (map format_item inventory), db))"

definition post_inventory_add :: "int \<Rightarrow> nat \<Rightarrow> blood_group option \<Rightarrow> body_units
    \<Rightarrow> inventory list \<Rightarrow> inventory response \<times> inventory list" where
  "post_inventory_add now h blood_group_arg units db =
     (case (blood_group_arg, units) of
        (None, _) \<Rightarrow> (Inl (400, FieldsRequired), db)
      | (Some bg, Absent) \<Rightarrow> (Inl (400, FieldsRequired), db)
      | (Some bg, Unparsable) \<Rightarrow> (Inl (400, UnitsNotPositive), db)
      | (Some bg, Parsed unitsToAdd) \<Rightarrow>
          if unitsToAdd \<le> 0 then (Inl (400, UnitsNotPositive), db)
          else (case addUnits now h bg unitsToAdd db of
                  (Inl e, db') \<Rightarrow> (Inl (500, e), db')
                | (Inr doc, db') \<Rightarrow> (Inr doc, db')))"



subsection \<open>JavaScript dates\<close>

text \<open>
  A \<open>Date\<close> is its time value, the milliseconds since the epoch. The functions below
  are the abstract operations of ECMA-262 (section 21.4.1) that \<open>getMonth\<close>,
  \<open>setMonth\<close>, \<open>getDate\<close> and \<open>setDate\<close> are made of. Time values stay inside the
  range of \<open>TimeClip\<close>.
\<close>

definition msPerDay :: int where
  "msPerDay = 86400000"

definition Day :: "int \<Rightarrow> int" where
  "Day t = t div msPerDay"

definition TimeWithinDay :: "int \<Rightarrow> int" where
  "TimeWithinDay t = t mod msPerDay"

definition DaysInYear :: "int \<Rightarrow> int" where
  "DaysInYear y =
     (if y mod 4 \<noteq> 0 then 365 else if y mod 100 \<noteq> 0 then 366
      else if y mod 400 \<noteq> 0 then 365 else 366)"

definition DayFromYear :: "int \<Rightarrow> int" where
  "DayFromYear y =
     365 * (y - 1970) + (y - 1969) div 4 - (y - 1901) div 100 + (y - 1601) div 400"

text \<open>
  The year of a day number: the largest \<open>y\<close> with \<open>DayFromYear y \<le> d\<close>, found from
  the mean length of a Gregorian year and one step of correction.
\<close>

definition YearFromDay :: "int \<Rightarrow> int" where
  "YearFromDay d =
     (let y = 1970 + (400 * d) div 146097 in
      if d < DayFromYear y then y - 1
      else if DayFromYear (y + 1) \<le> d then y + 1
      else y)"

definition YearFromTime :: "int \<Rightarrow> int" where
  "YearFromTime t = YearFromDay (Day t)"

definition InLeapYear :: "int \<Rightarrow> int" where
  "InLeapYear t = (if DaysInYear (YearFromTime t) = 366 then 1 else 0)"

definition DayWithinYear :: "int \<Rightarrow> int" where
  "DayWithinYear t = Day t - DayFromYear (YearFromTime t)"

text \<open>The day within the year on which month \<open>m\<close> (0 to 11) begins.\<close>

definition month_start :: "int \<Rightarrow> int \<Rightarrow> int" where
  "month_start leap m =
     (if m = 0 then 0 else if m = 1 then 31 else if m = 2 then 59 + leap
      else if m = 3 then 90 + leap else if m = 4 then 120 + leap
      else if m = 5 then 151 + leap else if m = 6 then 181 + leap
      else if m = 7 then 212 + leap else if m = 8 then 243 + leap
      else if m = 9 then 273 + leap else if m = 10 then 304 + leap
      else 334 + leap)"

definition MonthFromTime :: "int \<Rightarrow> int" where
  "MonthFromTime t =
     (let d = DayWithinYear t; leap = InLeapYear t in
      if d < 31 then 0 else if d < 59 + leap then 1 else if d < 90 + leap then 2
      else if d < 120 + leap then 3 else if d < 151 + leap then 4
      else if d < 181 + leap then 5 else if d < 212 + leap then 6
      else if d < 243 + leap then 7 else if d < 273 + leap then 8
      else if d < 304 + leap then 9 else if d < 334 + leap then 10
      else 11)"

definition DateFromTime :: "int \<Rightarrow> int" where
  "DateFromTime t = DayWithinYear t - month_start (InLeapYear t) (MonthFromTime t) + 1"

text \<open>
  \<open>MakeDay\<close>: the day number of the first of month \<open>month mod 12\<close> in year
  \<open>year + month div 12\<close>, plus \<open>date - 1\<close>; a date past the end of the month runs
  on into the next one.
\<close>

definition MakeDay :: "int \<Rightarrow> int \<Rightarrow> int \<Rightarrow> int" where
  "MakeDay year month date =
     (let ym = year + month div 12; mn = month mod 12 in
      DayFromYear ym + month_start (if DaysInYear ym = 366 then 1 else 0) mn + date - 1)"

definition MakeDate :: "int \<Rightarrow> int \<Rightarrow> int" where
  "MakeDate day time = day * msPerDay + time"

text \<open>
  The time zone of the server is its function \<open>LocalTZA(t, isUTC)\<close>, in milliseconds:
  for \<open>isUTC\<close> the offset of local time from UTC that is in force at the time value
  \<open>t\<close>, and otherwise the offset with which the local time \<open>t\<close> is read. In a zone with
  daylight saving the two change at the transitions; in a zone without, both are one
  constant.
\<close>

type_synonym zone = "int \<Rightarrow> bool \<Rightarrow> int"


definition LocalTime :: "zone \<Rightarrow> int \<Rightarrow> int" where
  "LocalTime tz t = t + tz t True"

definition UTC :: "zone \<Rightarrow> int \<Rightarrow> int" where
  "UTC tz t = t - tz t False"

definition getMonth :: "zone \<Rightarrow> int \<Rightarrow> int" where
  "getMonth tz t = MonthFromTime (LocalTime tz t)"

definition getDate :: "zone \<Rightarrow> int \<Rightarrow> int" where
  "getDate tz t = DateFromTime (LocalTime tz t)"

definition setMonth :: "zone \<Rightarrow> int \<Rightarrow> int \<Rightarrow> int" where
  "setMonth tz t month =
     (let lt = LocalTime tz t in
      UTC tz (MakeDate (MakeDay (YearFromTime lt) month (DateFromTime lt)) (TimeWithinDay lt)))"

definition setDate :: "zone \<Rightarrow> int \<Rightarrow> int \<Rightarrow> int" where
  "setDate tz t date =
     (let lt = LocalTime tz t in
      UTC tz (MakeDate (MakeDay (YearFromTime lt) (MonthFromTime lt) date) (TimeWithinDay lt)))"


subsection \<open>Donor eligibility\<close>

text \<open>
  The two helpers of the reminder routes. They read the calendar in the zone \<open>tz\<close> of
  the server process.
\<close>

definition isDonorEligible :: "zone \<Rightarrow> int \<Rightarrow> int option \<Rightarrow> bool" where
  "isDonorEligible tz now lastDonationDate =
     (case lastDonationDate of
        None \<Rightarrow> True
      | Some lastDonation \<Rightarrow>
          (let threeMonthsLater = setMonth tz lastDonation (getMonth tz lastDonation + 3)
           in now \<ge> threeMonthsLater))"

definition getEligibleDate :: "zone \<Rightarrow> int \<Rightarrow> int option \<Rightarrow> int" where
  "getEligibleDate tz now lastDonationDate =
     (case lastDonationDate of
        None \<Rightarrow> now
      | Some lastDonation \<Rightarrow> setMonth tz lastDonation (getMonth tz lastDonation + 3))"

subsection \<open>Users and the Notification model\<close>

datatype role = admin | donor | seeker | hospital

record user =
  user_id :: nat
  user_name :: string
  email :: string
  phone :: string
  role :: role
  bloodGroup :: "blood_group option"
  lastDonation :: "int option"
  hospitalName :: "string option"

datatype notification_type = donation_reminder | blood_request | thank_you | general

datatype delivery = by_email | sms | app | console

datatype notification_status = pending | sent | delivered | failed

record notification =
  notif_id :: nat
  donor_id :: nat
  sender_hospital_id :: nat
  ntype :: notification_type
  message :: string
  delivery_method :: delivery
  status :: notification_status
  sent_at :: "int option"
  is_read :: bool

text \<open>
  \<open>Notification.create\<close> as the routes call it: the fields they pass, \<open>is_read\<close> at
  its default, a fresh \<open>_id\<close>. The schema requires a message of at most 500 characters;
  a document that fails validation is not stored and the call throws.
\<close>

definition validate_message :: "string \<Rightarrow> bool" where
  "validate_message m = (m \<noteq> [] \<and> length m \<le> 500)"

definition Notification_create :: "nat \<Rightarrow> nat \<Rightarrow> string \<Rightarrow> int \<Rightarrow> notification list
    \<Rightarrow> (error + notification) \<times> notification list" where
  "Notification_create donorId hospitalId msg now ns =
     (if \<not> validate_message msg then (Inl ValidationFailed, ns)
      else let doc = \<lparr>notif_id = fresh_id (map notif_id ns), donor_id = donorId,
                       sender_hospital_id = hospitalId, ntype = donation_reminder,
                       message = msg, delivery_method = console, status = sent,
                       sent_at = Some now, is_read = False\<rparr>
           in (Inr doc, ns @ [doc]))"

text \<open>
  \<open>wasReminderSentRecently\<close> begins with \<open>cutoffDate = new Date()\<close> and
  \<open>cutoffDate.setDate(cutoffDate.getDate() - daysAgo)\<close>: the same local time of day on
  the calendar day \<open>daysAgo\<close> days before today.
\<close>

definition cutoffDate :: "zone \<Rightarrow> int \<Rightarrow> int \<Rightarrow> int" where
  "cutoffDate tz now daysAgo = setDate tz now (getDate tz now - daysAgo)"

definition wasReminderSentRecently :: "zone \<Rightarrow> int \<Rightarrow> nat \<Rightarrow> nat \<Rightarrow> int \<Rightarrow> notification list
    \<Rightarrow> bool" where
  "wasReminderSentRecently tz now donorId hospitalId daysAgo ns =
     (let cutoff = cutoffDate tz now daysAgo;
          recentReminder =
            find (\<lambda>n. donor_id n = donorId \<and> sender_hospital_id n = hospitalId
                       \<and> ntype n = donation_reminder
                       \<and> (case sent_at n of None \<Rightarrow> False | Some s \<Rightarrow> cutoff \<le> s)) ns
      in recentReminder \<noteq> None)"

subsection \<open>The reminder routes\<close>

text \<open>\<open>req.user.profile?.hospitalName || req.user.name\<close>: an empty string is falsy.\<close>

definition hospital_display_name :: "user \<Rightarrow> string" where
  "hospital_display_name u =
     (case hospitalName u of
        None \<Rightarrow> user_name u
      | Some n \<Rightarrow> if n = [] then user_name u else n)"



definition single_message :: "user \<Rightarrow> string \<Rightarrow> string" where
  "single_message d hospitalName' =
     ''Hello '' @ user_name d @ ''! You're eligible to donate blood again. Please visit ''
       @ hospitalName' @ '' to save a life.''"





text \<open>
  The \<open>donor_id\<close> of a request body is any JSON value, and the route hands it to
  \<open>User.findOne\<close> as the condition on \<open>_id\<close>. Mongoose casts it to the type of the path:
  a value that is no ObjectId (a string that is not an id, say) makes the query reject
  with a \<open>CastError\<close>; an ObjectId selects the user with that id; and an object of query
  operators, such as \<open>{"$ne": null}\<close>, is a condition on the id, given here by the ids
  that satisfy it. \<open>findOne\<close> returns the first document that matches.
\<close>

datatype id_query = Uncastable | ObjectId nat | IdCondition "nat \<Rightarrow> bool"

fun id_matches :: "id_query \<Rightarrow> nat \<Rightarrow> bool" where
  "id_matches Uncastable j = False"
| "id_matches (ObjectId i) j = (j = i)"
| "id_matches (IdCondition p) j = p j"

definition User_findOne :: "id_query \<Rightarrow> role \<Rightarrow> user list \<Rightarrow> error + user option" where
  "User_findOne q r users =
     (case q of
        Uncastable \<Rightarrow> Inl CastError
      | _ \<Rightarrow> Inr (find (\<lambda>u. id_matches q (user_id u) \<and> role u = r) users))"

text \<open>
  \<open>POST /reminders/send-single\<close>; \<open>donor_id\<close> is \<open>None\<close> when the body has none or a
  falsy one (\<open>null\<close>, \<open>false\<close>, 0 or the empty string). The catch block answers every
  error with status 500.
\<close>

definition post_reminders_send_single :: "int \<Rightarrow> user \<Rightarrow> id_query option \<Rightarrow> user list
    \<Rightarrow> notification list \<Rightarrow> (string \<times> string) response \<times> notification list" where
  "post_reminders_send_single now req_user donor_id_arg users ns =
     (case donor_id_arg of
        None \<Rightarrow> (Inl (400, DonorIdRequired), ns)
      | Some q \<Rightarrow>
          (case User_findOne q donor users of
             Inl e \<Rightarrow> (Inl (500, ServerError), ns)
           | Inr None \<Rightarrow> (Inl (404, DonorNotFound), ns)
           | Inr (Some d) \<Rightarrow>
               (case Notification_create (user_id d) (user_id req_user)
                       (single_message d (hospital_display_name req_user)) now ns of
                  (Inl e, ns') \<Rightarrow> (Inl (500, ServerError), ns')
                | (Inr _, ns') \<Rightarrow> (Inr (user_name d, email d), ns'))))"

record eligible_donor =
  eligible_id :: nat
  eligible_name :: string
  eligible_email :: string
  eligible_phone :: string
  eligible_blood_group :: string
  last_donation :: "int option"
  eligible_from :: int
  reminder_sent :: bool

text \<open>\<open>GET /reminders\<close>: the eligible donors and the number of them not yet reminded.\<close>

definition get_reminders :: "zone \<Rightarrow> int \<Rightarrow> user \<Rightarrow> user list \<Rightarrow> notification list
    \<Rightarrow> eligible_donor list \<times> nat" where
  "get_reminders tz now req_user users ns =
     (let donors = filter (\<lambda>u. role u = donor) users;
          eligibleDonors =
            map (\<lambda>d. \<lparr>eligible_id = user_id d, eligible_name = user_name d,
                       eligible_email = email d, eligible_phone = phone d,
                       eligible_blood_group =
                         (case bloodGroup d of None \<Rightarrow> ''Unknown'' | Some bg \<Rightarrow> label bg),
                       last_donation = lastDonation d,
                       eligible_from = getEligibleDate tz now (lastDonation d),
                       reminder_sent =
                         wasReminderSentRecently tz now (user_id d) (user_id req_user) 30 ns\<rparr>)
              (filter (\<lambda>d. isDonorEligible tz now (lastDonation d)) donors)
      in (eligibleDonors, length (filter (\<lambda>d. \<not> reminder_sent d) eligibleDonors)))"

subsection \<open>The Hospital model: search by location\<close>

text \<open>
  Strings are lists of 8-bit characters and the model covers ASCII text:
  \<open>toLowerCase\<close> maps A to Z, \<open>trim\<close> strips the ASCII white space, and \<open>sort({name: 1})\<close>
  is the byte order.
\<close>

record hospital_doc =
  hosp_id :: nat
  name :: string
  address :: string
  city :: string
  state :: "string option"
  isActive :: bool

definition lower_char :: "char \<Rightarrow> char" where
  "lower_char c =
     (case map_of (zip ''ABCDEFGHIJKLMNOPQRSTUVWXYZ'' ''abcdefghijklmnopqrstuvwxyz'') c of
        None \<Rightarrow> c
      | Some l \<Rightarrow> l)"

definition toLowerCase :: "string \<Rightarrow> string" where
  "toLowerCase s = map lower_char s"

definition is_space :: "char \<Rightarrow> bool" where
  "is_space c = (c \<in> set [CHR 0x09, CHR 0x0A, CHR 0x0B, CHR 0x0C, CHR 0x0D, CHR 0x20])"

definition trim :: "string \<Rightarrow> string" where
  "trim s = rev (dropWhile is_space (rev (dropWhile is_space s)))"

text \<open>
  The regular expressions of \<open>new RegExp(term, 'i')\<close>, for the patterns made of
  ordinary characters and the wildcard \<open>.\<close> only: the pattern matches a string when it
  matches at some position, an ordinary character matching itself in either case and
  \<open>.\<close> matching any character but a line feed. A pattern with any other syntax
  character (\<open>\ ^ $ | ? * + ( ) [ ] { }\<close>) is outside this fragment, and \<open>RegExp_i\<close>
  is \<open>None\<close> for it.
\<close>

definition regex_syntax :: "char list" where
  "regex_syntax =
     [CHR 0x5C, CHR ''^'', CHR ''$'', CHR ''|'', CHR ''?'', CHR ''*'', CHR ''+'',
      CHR ''('', CHR '')'', CHR ''['', CHR '']'', CHR ''{'', CHR ''}'']"

fun match_here :: "string \<Rightarrow> string \<Rightarrow> bool" where
  "match_here [] s = True"
| "match_here (p # ps) [] = False"
| "match_here (p # ps) (c # cs) =
     ((if p = CHR ''.'' then c \<noteq> CHR 0x0A else lower_char p = lower_char c)
      \<and> match_here ps cs)"

fun regex_search :: "string \<Rightarrow> string \<Rightarrow> bool" where
  "regex_search pat [] = match_here pat []"
| "regex_search pat (c # cs) = (match_here pat (c # cs) \<or> regex_search pat cs)"

definition RegExp_i :: "string \<Rightarrow> (string \<Rightarrow> bool) option" where
  "RegExp_i pat =
     (if list_ex (\<lambda>c. c \<in> set regex_syntax) pat then None else Some (regex_search pat))"

text \<open>
  \<open>searchByLocation\<close>; the result is \<open>None\<close> when the fallback needs a pattern outside
  the fragment above. A hospital without a \<open>state\<close> does not match on that field.
\<close>

definition searchByLocation :: "string \<Rightarrow> hospital_doc list \<Rightarrow> hospital_doc list option" where
  "searchByLocation searchTerm db =
     (let normalizedTerm = trim (toLowerCase searchTerm);
          hospitals = sort_key name (filter (\<lambda>h. city h = normalizedTerm \<and> isActive h) db)
      in if length hospitals = 0
         then (case RegExp_i normalizedTerm of
                 None \<Rightarrow> None
               | Some re \<Rightarrow>
                   Some (sort_key name
                     (filter (\<lambda>h. (re (city h) \<or> re (address h)
                                     \<or> (case state h of None \<Rightarrow> False | Some s \<Rightarrow> re s))
                                    \<and> isActive h) db)))
         else Some hospitals)"

text \<open>
  The search as the specification words it, to compare with: over the active hospitals, an
  exact match on the city, and a case-insensitive substring test in the fallback.
\<close>

fun prefix_ci :: "string \<Rightarrow> string \<Rightarrow> bool" where
  "prefix_ci [] s = True"
| "prefix_ci (p # ps) [] = False"
| "prefix_ci (p # ps) (c # cs) = (lower_char p = lower_char c \<and> prefix_ci ps cs)"

fun contains_ci :: "string \<Rightarrow> string \<Rightarrow> bool" where
  "contains_ci t [] = prefix_ci t []"
| "contains_ci t (c # cs) = (prefix_ci t (c # cs) \<or> contains_ci t cs)"

definition search_by_location_spec :: "string \<Rightarrow> hospital_doc list \<Rightarrow> hospital_doc list" where
  "search_by_location_spec searchTerm db =
     (let t = trim (toLowerCase searchTerm);
          exact = sort_key name (filter (\<lambda>h. city h = t \<and> isActive h) db)
      in if exact = []
         then sort_key name
                (filter (\<lambda>h. (contains_ci t (city h) \<or> contains_ci t (address h)
                                \<or> (case state h of None \<Rightarrow> False | Some s \<Rightarrow> contains_ci t s))
                               \<and> isActive h) db)
         else exact)"

subsection \<open>Invariants and the vocabulary of the properties\<close>

text \<open>
  MongoDB keeps \<open>_id\<close> unique, the unique index keeps one document per pair of
  hospital and blood group, and the validator keeps the counts non-negative.
\<close>

definition ids_distinct :: "inventory list \<Rightarrow> bool" where
  "ids_distinct db = distinct (map inv_id db)"

definition units_nonneg :: "inventory list \<Rightarrow> bool" where
  "units_nonneg db = list_all (\<lambda>r. 0 \<le> units_available r) db"


definition replace_doc :: "inventory \<Rightarrow> inventory \<Rightarrow> inventory list \<Rightarrow> inventory list" where
  "replace_doc r r' db = map (\<lambda>x. if x = r then r' else x) db"


definition pairs_unique :: "inventory list \<Rightarrow> bool" where
  "pairs_unique db = distinct (map (\<lambda>r. (hospital_id r, blood_group r)) db)"

definition same_identity :: "inventory \<Rightarrow> inventory \<Rightarrow> bool" where
  "same_identity r r' =
     (inv_id r' = inv_id r \<and> hospital_id r' = hospital_id r
      \<and> blood_group r' = blood_group r \<and> min_threshold r' = min_threshold r)"

definition touches_only :: "inventory \<Rightarrow> inventory list \<Rightarrow> inventory list \<Rightarrow> bool" where
  "touches_only r db db' =
     list_all2 (\<lambda>x x'. if x = r then same_identity x x' else x' = x) db db'"

text \<open>The three invariants of the inventory collection together.\<close>

definition store_ok :: "inventory list \<Rightarrow> bool" where
  "store_ok db = (ids_distinct db \<and> pairs_unique db \<and> units_nonneg db)"

text \<open>A small collection to evaluate the operations on, and one with a single unit.\<close>

definition stock_example :: "inventory list" where
  "stock_example =
     [\<lparr>inv_id = 0, hospital_id = 1, blood_group = A_pos, units_available = 3,
       last_updated = 0, min_threshold = 2\<rparr>,
      \<lparr>inv_id = 1, hospital_id = 1, blood_group = O_neg, units_available = 7,
       last_updated = 0, min_threshold = 2\<rparr>,
      \<lparr>inv_id = 2, hospital_id = 2, blood_group = A_pos, units_available = 4,
       last_updated = 0, min_threshold = 2\<rparr>]"





text \<open>A hospital user, a donor and a seeker to evaluate the reminder routes on.\<close>

definition city_hospital :: user where
  "city_hospital =
     \<lparr>user_id = 1, user_name = ''Dr Rao'', email = ''rao@city.example'', phone = ''100'',
      role = hospital, bloodGroup = None, lastDonation = None,
      hospitalName = Some ''City Hospital''\<rparr>"

definition asha :: user where
  "asha =
     \<lparr>user_id = 2, user_name = ''Asha'', email = ''asha@mail.example'', phone = ''200'',
      role = donor, bloodGroup = Some O_neg, lastDonation = None, hospitalName = None\<rparr>"

definition ravi :: user where
  "ravi =
     \<lparr>user_id = 3, user_name = ''Ravi'', email = ''ravi@mail.example'', phone = ''300'',
      role = seeker, bloodGroup = Some A_pos, lastDonation = None, hospitalName = None\<rparr>"

definition reminder_users :: "user list" where
  "reminder_users = [city_hospital, asha, ravi]"

definition long_named_hospital :: user where
  "long_named_hospital = city_hospital\<lparr>hospitalName := Some (replicate 450 (CHR ''x''))\<rparr>"










text \<open>
  A search term without any character of the regular-expression syntax, and a hospital to
  evaluate the search on.
\<close>

definition literal_term :: "string \<Rightarrow> bool" where
  "literal_term t = (\<not> list_ex (\<lambda>c. c \<in> set regex_syntax \<or> c = CHR ''.'') t)"

definition pune_hospital :: hospital_doc where
  "pune_hospital =
     \<lparr>hosp_id = 1, name = ''Sahyadri Hospital'', address = ''30 Karve Road'', city = ''pune'',
      state = Some ''Maharashtra'', isActive = True\<rparr>"

section \<open>The inventory ledger\<close>

subsection \<open>Queries and writes\<close>

lemma findOne_SomeD:
  "findOne h bg db = Some r \<Longrightarrow> r \<in> set db \<and> hospital_id r = h \<and> blood_group r = bg"
  unfolding findOne_def by (auto simp: find_Some_iff)

lemma findOne_None_iff:
  "findOne h bg db = None \<longleftrightarrow> (\<forall>r \<in> set db. \<not> (hospital_id r = h \<and> blood_group r = bg))"
  unfolding findOne_def by (auto simp: find_None_iff)

lemma bit_length_le: "n < 2 ^ k \<Longrightarrow> bit_length n \<le> k"
proof (induction k arbitrary: n)
  case 0
  then show ?case by (simp add: bit_length.simps)
next
  case (Suc k)
  then have "n div 2 < 2 ^ k" by simp
  from Suc.IH [OF this] show ?case
    by (subst bit_length.simps) simp
qed



lemma to_double_exact: "\<bar>x\<bar> < 2 ^ 53 \<Longrightarrow> to_double x = x"
proof -
  assume a: "\<bar>x\<bar> < 2 ^ 53"
  then have "nat \<bar>x\<bar> < 2 ^ 53"
    by (simp add: nat_less_iff)
  then have "bit_length (nat \<bar>x\<bar>) - 53 = 0"
    using bit_length_le [of "nat \<bar>x\<bar>" 53] by simp
  then show ?thesis
    by (simp add: to_double_def Let_def mult_sgn_abs)
qed

lemma to_double_nonneg: "0 \<le> x \<Longrightarrow> 0 \<le> to_double x"
  by (auto simp: to_double_def Let_def sgn_if pos_imp_zdiv_nonneg_iff)

lemma to_double_neg:
  "x < 0 \<Longrightarrow> to_double x < 0"
proof -
  assume x: "x < 0"
  define e where "e = bit_length (nat \<bar>x\<bar>) - 53"
  define q where "q = \<bar>x\<bar> div 2 ^ e"
  have "2 ^ e \<le> \<bar>x\<bar>"
  proof (cases "e = 0")
    case True
    then show ?thesis using x by simp
  next
    case False
    then have "53 < bit_length (nat \<bar>x\<bar>)" by (simp add: e_def)
    then have "e < bit_length (nat \<bar>x\<bar>)" by (simp add: e_def)
    then have "(2::nat) ^ e \<le> nat \<bar>x\<bar>"
      using bit_length_le [of "nat \<bar>x\<bar>" e] by (cases "nat \<bar>x\<bar> < 2 ^ e") simp_all
    then have "int (2 ^ e) \<le> int (nat \<bar>x\<bar>)" by (simp only: of_nat_le_iff)
    then show ?thesis by simp
  qed
  then have "0 < q"
    unfolding q_def by (simp add: pos_imp_zdiv_pos_iff)
  then have p: "0 < (if 2 * (\<bar>x\<bar> mod 2 ^ e) > 2 ^ e
                    \<or> (2 * (\<bar>x\<bar> mod 2 ^ e) = 2 ^ e \<and> odd q) then q + 1 else q) * 2 ^ e"
    by simp
  have s: "sgn x = - 1" using x by simp
  show ?thesis
    unfolding to_double_def Let_def e_def [symmetric] q_def [symmetric] s
    using p by simp
qed



lemma fresh_id_greater: "i \<in> set ids \<Longrightarrow> i < fresh_id ids"
  by (induction ids) auto

lemma fresh_id_snoc: "fresh_id (ids @ [i]) = max (Suc i) (fresh_id ids)"
  by (induction ids) auto

lemma write_by_id:
  assumes "ids_distinct db" and "r \<in> set db"
  shows "map (\<lambda>x. if inv_id x = inv_id r then r' else x) db = replace_doc r r' db"
proof -
  have "inj_on inv_id (set db)"
    using assms(1) by (simp add: ids_distinct_def distinct_map)
  then have "\<forall>x \<in> set db. (inv_id x = inv_id r) = (x = r)"
    using assms(2) by (auto dest: inj_onD)
  then show ?thesis
    unfolding replace_doc_def by (intro map_cong) auto
qed

lemma find_replace:
  assumes "P r' = P r"
  shows "find P (map (\<lambda>x. if x = r then r' else x) db) =
         map_option (\<lambda>x. if x = r then r' else x) (find P db)"
  using assms by (induction db) auto


lemma findOne_replace_other:
  assumes "findOne h bg db = Some r" and "hospital_id r' = h" and "blood_group r' = bg"
    and "h' \<noteq> h \<or> bg' \<noteq> bg"
  shows "findOne h' bg' (replace_doc r r' db) = findOne h' bg' db"
proof -
  have r: "hospital_id r = h \<and> blood_group r = bg"
    using findOne_SomeD [OF assms(1)] by simp
  have "findOne h' bg' (replace_doc r r' db) =
          map_option (\<lambda>x. if x = r then r' else x) (findOne h' bg' db)"
    unfolding findOne_def replace_doc_def
    using r assms(2,3,4) by (subst find_replace) auto
  moreover have "findOne h' bg' db \<noteq> Some r"
    using r assms(4) findOne_SomeD [of h' bg' db r] by auto
  ultimately show ?thesis
    by (cases "findOne h' bg' db") auto
qed


lemma ids_distinct_replace:
  assumes "ids_distinct db" and "inv_id r' = inv_id r"
  shows "ids_distinct (replace_doc r r' db)"
proof -
  have "map inv_id (replace_doc r r' db) = map inv_id db"
    unfolding replace_doc_def using assms(2) by (induction db) auto
  then show ?thesis using assms(1) by (simp add: ids_distinct_def)
qed

lemma ids_distinct_append:
  assumes "ids_distinct db" and "inv_id doc = fresh_id (map inv_id db)"
  shows "ids_distinct (db @ [doc])"
proof -
  have "inv_id doc \<notin> set (map inv_id db)"
    using fresh_id_greater [of "inv_id doc" "map inv_id db"] assms(2) by auto
  then show ?thesis using assms(1) by (simp add: ids_distinct_def)
qed

lemma upsert_existing:
  assumes "ids_distinct db" and "findOne h bg db = Some r" and "0 \<le> v"
  shows "upsertInventory now h bg v db =
           (Inr (r\<lparr>units_available := v, last_updated := now\<rparr>),
            replace_doc r (r\<lparr>units_available := v, last_updated := now\<rparr>) db)"
  using assms findOne_SomeD [OF assms(2)]
  by (simp add: upsertInventory_def validate_units_def Let_def write_by_id)

lemma upsert_new:
  assumes "findOne h bg db = None" and "0 \<le> v"
  shows "upsertInventory now h bg v db =
           (Inr \<lparr>inv_id = fresh_id (map inv_id db), hospital_id = h, blood_group = bg,
                  units_available = v, last_updated = now, min_threshold = 2\<rparr>,
            db @ [\<lparr>inv_id = fresh_id (map inv_id db), hospital_id = h, blood_group = bg,
                  units_available = v, last_updated = now, min_threshold = 2\<rparr>])"
  using assms by (simp add: upsertInventory_def validate_units_def Let_def)

lemma add_existing:
  assumes "ids_distinct db" and "findOne h bg db = Some r" and "0 \<le> units_available r + n"
  shows "addUnits now h bg n db =
           (Inr (r\<lparr>units_available := to_double (units_available r + n), last_updated := now\<rparr>),
            replace_doc r
              (r\<lparr>units_available := to_double (units_available r + n), last_updated := now\<rparr>) db)"
  using assms findOne_SomeD [OF assms(2)] to_double_nonneg [OF assms(3)]
  by (simp add: addUnits_def save_def validate_units_def write_by_id)

lemma add_new:
  assumes "findOne h bg db = None" and "0 \<le> n"
  shows "addUnits now h bg n db =
           (Inr \<lparr>inv_id = fresh_id (map inv_id db), hospital_id = h, blood_group = bg,
                  units_available = n, last_updated = now, min_threshold = 2\<rparr>,
            db @ [\<lparr>inv_id = fresh_id (map inv_id db), hospital_id = h, blood_group = bg,
                  units_available = n, last_updated = now, min_threshold = 2\<rparr>])"
  using assms by (simp add: addUnits_def create_def validate_units_def Let_def)

lemma reduce_existing:
  assumes "ids_distinct db" and "findOne h bg db = Some r" and "n \<le> units_available r"
  shows "reduceUnits now h bg n db =
           (Inr (r\<lparr>units_available := to_double (units_available r - n), last_updated := now\<rparr>),
            replace_doc r
              (r\<lparr>units_available := to_double (units_available r - n), last_updated := now\<rparr>) db)"
  using assms findOne_SomeD [OF assms(2)] to_double_nonneg [of "units_available r - n"]
  by (simp add: reduceUnits_def save_def validate_units_def write_by_id)

lemma reduce_insufficient:
  assumes "findOne h bg db = Some r" and "units_available r < n"
  shows "reduceUnits now h bg n db = (Inl (InsufficientStock (units_available r)), db)"
  using assms by (simp add: reduceUnits_def)


lemma touches_only_refl: "touches_only r db db"
  unfolding touches_only_def same_identity_def by (induction db) auto

lemma touches_only_replace:
  "same_identity r r' \<Longrightarrow> touches_only r db (replace_doc r r' db)"
  unfolding touches_only_def replace_doc_def by (induction db) (auto simp: same_identity_def)



subsection \<open>Low stock\<close>

text \<open>
  Claim C8: \<open>is_low_stock\<close> is a pure predicate, true if and only if
  \<open>units_available \<le> min_threshold\<close>; it is true at the boundary
  \<open>units_available = min_threshold\<close>, and at \<open>units_available = 0\<close> for every
  threshold that is not negative (the schema's default is 2 and no operation sets another).
\<close>

theorem is_low_stock_iff:
  "(isLowStock r \<longleftrightarrow> units_available r \<le> min_threshold r)
   \<and> isLowStock (r\<lparr>units_available := min_threshold r\<rparr>)
   \<and> (0 \<le> min_threshold r \<longrightarrow> isLowStock (r\<lparr>units_available := 0\<rparr>))"
  by (simp add: isLowStock_def)

theorem is_low_stock_iff_witness:
  "0 \<le> min_threshold (hd stock_example)
   \<and> isLowStock ((hd stock_example)\<lparr>units_available := 0\<rparr>)
   \<and> isLowStock ((hd stock_example)\<lparr>units_available := 2\<rparr>)
   \<and> \<not> isLowStock (hd stock_example)"
  using is_low_stock_iff [of "hd stock_example"]
  by (simp add: stock_example_def)

subsection \<open>Reducing stock\<close>



subsection \<open>Adding and then reducing\<close>




subsection \<open>Setting a count\<close>



subsection \<open>The frame of a mutation\<close>

text \<open>
  Claim C10: on an existing record, each of \<open>upsertInventory\<close>, \<open>addUnits\<close> and
  \<open>reduceUnits\<close> either returns the collection as it was (a rejected call) or replaces
  that one record by itself with new \<open>units_available\<close> and \<open>last_updated\<close>; its
  \<open>_id\<close>, \<open>hospital_id\<close>, \<open>blood_group\<close> and \<open>min_threshold\<close> stay, and so does
  every other record of the collection, at its place.
\<close>

theorem mutations_touch_one_record:
  assumes "ids_distinct db" and "findOne h bg db = Some r"
  shows "snd (upsertInventory now h bg v db)
           = (if 0 \<le> v then replace_doc r (r\<lparr>units_available := v, last_updated := now\<rparr>) db
              else db)
         \<and> snd (addUnits now h bg n db)
           = (if 0 \<le> units_available r + n
              then replace_doc r
                     (r\<lparr>units_available := to_double (units_available r + n),
                        last_updated := now\<rparr>) db
              else db)
         \<and> snd (reduceUnits now h bg n db)
           = (if n \<le> units_available r
              then replace_doc r
                     (r\<lparr>units_available := to_double (units_available r - n),
                        last_updated := now\<rparr>) db
              else db)
         \<and> touches_only r db (snd (upsertInventory now h bg v db))
         \<and> touches_only r db (snd (addUnits now h bg n db))
         \<and> touches_only r db (snd (reduceUnits now h bg n db))"
proof -
  have up: "snd (upsertInventory now h bg v db)
           = (if 0 \<le> v then replace_doc r (r\<lparr>units_available := v, last_updated := now\<rparr>) db
              else db)"
    using upsert_existing [OF assms, of v now]
    by (simp add: upsertInventory_def validate_units_def)
  have ad: "snd (addUnits now h bg n db)
           = (if 0 \<le> units_available r + n
              then replace_doc r
                     (r\<lparr>units_available := to_double (units_available r + n),
                        last_updated := now\<rparr>) db
              else db)"
  proof (cases "0 \<le> units_available r + n")
    case True
    then show ?thesis
      using add_existing [OF assms True, of now] by simp
  next
    case False
    then have "to_double (units_available r + n) < 0"
      by (intro to_double_neg) simp
    then show ?thesis
      using False assms(2) by (simp add: addUnits_def save_def validate_units_def)
  qed
  have re: "snd (reduceUnits now h bg n db)
           = (if n \<le> units_available r
              then replace_doc r
                     (r\<lparr>units_available := to_double (units_available r - n),
                        last_updated := now\<rparr>) db
              else db)"
    using reduce_existing [OF assms, of n now] reduce_insufficient [OF assms(2), of n now]
    by (simp add: not_le)
  have t: "\<And>u. touches_only r db (replace_doc r (r\<lparr>units_available := u, last_updated := now\<rparr>) db)"
    by (rule touches_only_replace) (simp add: same_identity_def)
  show ?thesis
    unfolding up ad re using t touches_only_refl by simp
qed

theorem mutations_touch_one_record_witness:
  "ids_distinct stock_example
   \<and> findOne 1 A_pos stock_example = Some (hd stock_example)
   \<and> snd (addUnits 40 1 A_pos 2 stock_example)
       = [\<lparr>inv_id = 0, hospital_id = 1, blood_group = A_pos, units_available = 5,
            last_updated = 40, min_threshold = 2\<rparr>,
          \<lparr>inv_id = 1, hospital_id = 1, blood_group = O_neg, units_available = 7,
            last_updated = 0, min_threshold = 2\<rparr>,
          \<lparr>inv_id = 2, hospital_id = 2, blood_group = A_pos, units_available = 4,
            last_updated = 0, min_threshold = 2\<rparr>]
   \<and> snd (reduceUnits 40 1 A_pos 9 stock_example) = stock_example
   \<and> touches_only (hd stock_example) stock_example (snd (upsertInventory 40 1 A_pos 6 stock_example))"
proof -
  have h: "ids_distinct stock_example"
    by (simp add: stock_example_def ids_distinct_def)
  have f: "findOne 1 A_pos stock_example = Some (hd stock_example)"
    by (simp add: stock_example_def findOne_def)
  have e: "replace_doc (hd stock_example)
             ((hd stock_example)\<lparr>units_available := 5, last_updated := 40\<rparr>) stock_example
           = [\<lparr>inv_id = 0, hospital_id = 1, blood_group = A_pos, units_available = 5,
                last_updated = 40, min_threshold = 2\<rparr>,
              \<lparr>inv_id = 1, hospital_id = 1, blood_group = O_neg, units_available = 7,
                last_updated = 0, min_threshold = 2\<rparr>,
              \<lparr>inv_id = 2, hospital_id = 2, blood_group = A_pos, units_available = 4,
                last_updated = 0, min_threshold = 2\<rparr>]"
    by (simp add: stock_example_def replace_doc_def)
  have v: "units_available (hd stock_example) = 3"
    by (simp add: stock_example_def)
  show ?thesis
    using mutations_touch_one_record [OF h f, of 40 6 2]
          mutations_touch_one_record [OF h f, of 40 6 9] h f e
    by (simp add: v to_double_exact)
qed

subsection \<open>Reading the inventory\<close>

lemma sorted_labels_inventory:
  "sorted (map (\<lambda>r. label (blood_group r)) (getHospitalInventory h db))"
  unfolding getHospitalInventory_def by (rule sorted_sort_key)

lemma set_getHospitalInventory:
  "set (getHospitalInventory h db) = {r \<in> set db. hospital_id r = h}"
  unfolding getHospitalInventory_def by auto

lemma label_inj: "label a = label b \<Longrightarrow> a = b"
  by (cases a; cases b) simp_all

lemma seed_all:
  "seed_defaults now h bloodGroups db =
     (None, db @ map (\<lambda>(i, bg). \<lparr>inv_id = fresh_id (map inv_id db) + i, hospital_id = h,
                                  blood_group = bg, units_available = 0, last_updated = now,
                                  min_threshold = 2\<rparr>)
                    (zip [0, 1, 2, 3, 4, 5, 6, 7] bloodGroups))"
  by (simp add: bloodGroups_def create_def validate_units_def fresh_id_snoc Let_def)

lemma inventory_of_seeded:
  assumes "\<forall>r \<in> set db. hospital_id r \<noteq> h"
  shows "getHospitalInventory h
           (db @ map (\<lambda>(i, bg). \<lparr>inv_id = k + i, hospital_id = h,
                                  blood_group = bg, units_available = 0, last_updated = now,
                                  min_threshold = 2\<rparr>)
                    (zip [0, 1, 2, 3, 4, 5, 6, 7] bloodGroups))
         = map (\<lambda>(i, bg). \<lparr>inv_id = k + i, hospital_id = h,
                                  blood_group = bg, units_available = 0, last_updated = now,
                                  min_threshold = 2\<rparr>)
             [(0, A_pos), (1, A_neg), (4, AB_pos), (5, AB_neg), (2, B_pos), (3, B_neg),
              (6, O_pos), (7, O_neg)]"
proof -
  have "filter (\<lambda>r. hospital_id r = h) db = []"
    using assms by (simp add: filter_empty_conv)
  then show ?thesis
    by (simp add: getHospitalInventory_def bloodGroups_def)
qed

lemma labels_of_views:
  "view_blood_group \<circ> format_item = (\<lambda>r. label (blood_group r))"
  by (simp add: fun_eq_iff format_item_def)

lemma distinct_groups_of_hospital:
  "pairs_unique db \<Longrightarrow> distinct (map blood_group (filter (\<lambda>r. hospital_id r = h) db))"
  unfolding pairs_unique_def
proof (induction db)
  case Nil
  then show ?case by simp
next
  case (Cons a db)
  then show ?case by (auto simp: image_iff)
qed

lemma distinct_labels_inventory:
  assumes "pairs_unique db"
  shows "distinct (map (\<lambda>r. label (blood_group r)) (getHospitalInventory h db))"
proof -
  let ?xs = "filter (\<lambda>r. hospital_id r = h) db"
  have d: "distinct (map blood_group ?xs)"
    using assms by (rule distinct_groups_of_hospital)
  then have "distinct ?xs \<and> inj_on blood_group (set ?xs)"
    by (simp add: distinct_map)
  then have "distinct (getHospitalInventory h db)
             \<and> inj_on (\<lambda>r. label (blood_group r)) (set (getHospitalInventory h db))"
    unfolding getHospitalInventory_def
    by (auto simp: inj_on_def dest: label_inj)
  then show ?thesis by (simp add: distinct_map)
qed

lemma get_inventory_empty:
  assumes "\<forall>r \<in> set db. hospital_id r \<noteq> h"
  shows "get_inventory now h db =
     (Inr (map format_item
             (map (\<lambda>(i, bg). \<lparr>inv_id = fresh_id (map inv_id db) + i, hospital_id = h,
                                  blood_group = bg, units_available = 0, last_updated = now,
                                  min_threshold = 2\<rparr>)
             [(0, A_pos), (1, A_neg), (4, AB_pos), (5, AB_neg), (2, B_pos), (3, B_neg),
              (6, O_pos), (7, O_neg)])),
      db @ map (\<lambda>(i, bg). \<lparr>inv_id = fresh_id (map inv_id db) + i, hospital_id = h,
                                  blood_group = bg, units_available = 0, last_updated = now,
                                  min_threshold = 2\<rparr>)
                    (zip [0, 1, 2, 3, 4, 5, 6, 7] bloodGroups))"
proof -
  have "getHospitalInventory h db = []"
    using assms by (simp add: getHospitalInventory_def filter_empty_conv)
  then show ?thesis
    unfolding get_inventory_def Let_def
    by (simp only: seed_all inventory_of_seeded [OF assms] prod.case option.case) simp
qed

lemma get_inventory_existing:
  assumes "\<exists>r \<in> set db. hospital_id r = h"
  shows "get_inventory now h db = (Inr (map format_item (getHospitalInventory h db)), db)"
proof -
  have "set (getHospitalInventory h db) \<noteq> {}"
    using assms by (auto simp: set_getHospitalInventory)
  then have "length (getHospitalInventory h db) \<noteq> 0" by auto
  then show ?thesis by (simp add: get_inventory_def Let_def)
qed

text \<open>
  Claim C4, as amended: for a hospital with no inventory records, \<open>get_inventory\<close> seeds
  one record per blood group and returns exactly 8 records, one for each of A+, A-, AB+,
  AB-, B+, B-, O+, O- in this order of the labels, each with \<open>units_available = 0\<close>,
  \<open>is_low_stock\<close> true and the default threshold 2. For a hospital that has records it
  seeds nothing and returns the records that exist, as many as there are. For every
  hospital the result is the hospital's records ordered by blood group label, with at most
  one record per blood group.
\<close>

theorem get_inventory_seeds_or_reads:
  "((\<forall>r \<in> set db. hospital_id r \<noteq> h) \<longrightarrow>
      (\<exists>views db'. get_inventory now h db = (Inr views, db')
         \<and> map view_blood_group views
             = [''A+'', ''A-'', ''AB+'', ''AB-'', ''B+'', ''B-'', ''O+'', ''O-'']
         \<and> list_all (\<lambda>v. view_units_available v = 0 \<and> view_is_low_stock v
                           \<and> view_min_threshold v = 2) views
         \<and> length db' = length db + 8 \<and> take (length db) db' = db))
   \<and> ((\<exists>r \<in> set db. hospital_id r = h) \<longrightarrow>
        get_inventory now h db = (Inr (map format_item (getHospitalInventory h db)), db)
        \<and> length (getHospitalInventory h db) = length (filter (\<lambda>r. hospital_id r = h) db))
   \<and> (\<exists>views db'. get_inventory now h db = (Inr views, db')
         \<and> views = map format_item (getHospitalInventory h db')
         \<and> sorted (map view_blood_group views)
         \<and> (pairs_unique db \<longrightarrow> distinct (map view_blood_group views)))"
proof (intro conjI impI)
  assume a: "\<forall>r \<in> set db. hospital_id r \<noteq> h"
  show "\<exists>views db'. get_inventory now h db = (Inr views, db')
         \<and> map view_blood_group views
             = [''A+'', ''A-'', ''AB+'', ''AB-'', ''B+'', ''B-'', ''O+'', ''O-'']
         \<and> list_all (\<lambda>v. view_units_available v = 0 \<and> view_is_low_stock v
                           \<and> view_min_threshold v = 2) views
         \<and> length db' = length db + 8 \<and> take (length db) db' = db"
    unfolding get_inventory_empty [OF a]
    by (simp add: format_item_def isLowStock_def bloodGroups_def)
next
  assume b: "\<exists>r \<in> set db. hospital_id r = h"
  show "get_inventory now h db = (Inr (map format_item (getHospitalInventory h db)), db)"
    using b by (rule get_inventory_existing)
  show "length (getHospitalInventory h db) = length (filter (\<lambda>r. hospital_id r = h) db)"
    by (simp add: getHospitalInventory_def)
next
  show "\<exists>views db'. get_inventory now h db = (Inr views, db')
         \<and> views = map format_item (getHospitalInventory h db')
         \<and> sorted (map view_blood_group views)
         \<and> (pairs_unique db \<longrightarrow> distinct (map view_blood_group views))"
  proof (cases "\<exists>r \<in> set db. hospital_id r = h")
    case True
    show ?thesis
      unfolding get_inventory_existing [OF True]
      by (simp add: labels_of_views sorted_labels_inventory distinct_labels_inventory)
  next
    case False
    then have a: "\<forall>r \<in> set db. hospital_id r \<noteq> h" by simp
    let ?db' = "db @ map (\<lambda>(i, bg). \<lparr>inv_id = fresh_id (map inv_id db) + i, hospital_id = h,
                                  blood_group = bg, units_available = 0, last_updated = now,
                                  min_threshold = 2\<rparr>)
                    (zip [0, 1, 2, 3, 4, 5, 6, 7] bloodGroups)"
    have g: "get_inventory now h db = (Inr (map format_item (getHospitalInventory h ?db')), ?db')"
      unfolding get_inventory_empty [OF a] inventory_of_seeded [OF a] ..
    have s: "sorted (map view_blood_group (map format_item (getHospitalInventory h ?db')))"
      by (simp add: labels_of_views sorted_labels_inventory)
    have d: "distinct (map view_blood_group (map format_item (getHospitalInventory h ?db')))"
      unfolding inventory_of_seeded [OF a] by (simp add: format_item_def)
    show ?thesis
      using g s d by blast
  qed
qed

theorem get_inventory_seeds_or_reads_witness:
  "filter (\<lambda>r. hospital_id r = 3) stock_example = []
   \<and> filter (\<lambda>r. hospital_id r = 1) stock_example \<noteq> []
   \<and> pairs_unique stock_example
   \<and> (\<exists>views db'. get_inventory 50 3 stock_example = (Inr views, db')
         \<and> map view_blood_group views
             = [''A+'', ''A-'', ''AB+'', ''AB-'', ''B+'', ''B-'', ''O+'', ''O-''])
   \<and> get_inventory 50 1 stock_example
       = (Inr (map format_item (getHospitalInventory 1 stock_example)), stock_example)
   \<and> length (getHospitalInventory 1 stock_example) = 2"
proof -
  have a: "\<forall>r \<in> set stock_example. hospital_id r \<noteq> 3"
    by (simp add: stock_example_def)
  have b: "\<exists>r \<in> set stock_example. hospital_id r = 1"
    by (simp add: stock_example_def)
  have c: "pairs_unique stock_example"
    by (simp add: stock_example_def pairs_unique_def)
  have l: "length (filter (\<lambda>r. hospital_id r = 1) stock_example) = 2"
    by (simp add: stock_example_def)
  note seeded = get_inventory_seeds_or_reads [of stock_example 3 50]
  note existing = get_inventory_seeds_or_reads [of stock_example 1 50]
  from seeded have "(\<forall>r \<in> set stock_example. hospital_id r \<noteq> 3) \<longrightarrow>
      (\<exists>views db'. get_inventory 50 3 stock_example = (Inr views, db')
         \<and> map view_blood_group views
             = [''A+'', ''A-'', ''AB+'', ''AB-'', ''B+'', ''B-'', ''O+'', ''O-'']
         \<and> list_all (\<lambda>v. view_units_available v = 0 \<and> view_is_low_stock v
                           \<and> view_min_threshold v = 2) views
         \<and> length db' = length stock_example + 8 \<and> take (length stock_example) db' = stock_example)"
    by (rule conjunct1)
  with a obtain views db' where "get_inventory 50 3 stock_example = (Inr views, db')"
    and "map view_blood_group views
             = [''A+'', ''A-'', ''AB+'', ''AB-'', ''B+'', ''B-'', ''O+'', ''O-'']"
    by (elim impE exE conjE)
  then have p: "\<exists>views db'. get_inventory 50 3 stock_example = (Inr views, db')
         \<and> map view_blood_group views
             = [''A+'', ''A-'', ''AB+'', ''AB-'', ''B+'', ''B-'', ''O+'', ''O-'']"
    by (intro exI conjI)
  from existing have "(\<exists>r \<in> set stock_example. hospital_id r = 1) \<longrightarrow>
        get_inventory 50 1 stock_example
          = (Inr (map format_item (getHospitalInventory 1 stock_example)), stock_example)
        \<and> length (getHospitalInventory 1 stock_example)
            = length (filter (\<lambda>r. hospital_id r = 1) stock_example)"
    by (elim conjE)
  from this b have qn: "get_inventory 50 1 stock_example
          = (Inr (map format_item (getHospitalInventory 1 stock_example)), stock_example)
        \<and> length (getHospitalInventory 1 stock_example)
            = length (filter (\<lambda>r. hospital_id r = 1) stock_example)"
    by (rule mp)
  note q = qn [THEN conjunct1] and n = qn [THEN conjunct2]
  have a': "filter (\<lambda>r. hospital_id r = 3) stock_example = []"
    by (simp add: stock_example_def)
  have b': "filter (\<lambda>r. hospital_id r = 1) stock_example \<noteq> []"
    by (simp add: stock_example_def)
  from a' b' c p q n [unfolded l] show ?thesis
    by (intro conjI)
qed

text \<open>
  The claim as first stated gives every hospital one record per blood group. A hospital
  whose first operation was \<open>addUnits\<close> for A+ has one record, and \<open>get_inventory\<close>
  returns that record alone.
\<close>

theorem get_inventory_partial_counterexample:
  "fst (get_inventory 1 7 (snd (addUnits 0 7 A_pos 5 [])))
     = Inr [\<lparr>view_id = 0, view_blood_group = ''A+'', view_units_available = 5,
             view_last_updated = 0, view_is_low_stock = False, view_min_threshold = 2\<rparr>]"
  by (simp add: get_inventory_def addUnits_def findOne_def create_def validate_units_def
        getHospitalInventory_def format_item_def isLowStock_def Let_def)

subsection \<open>The invariants are kept\<close>

text \<open>
  Every operation of the ledger, the seeding read included, takes a collection with unique
  ids, one record per pair and non-negative counts to such a collection; the empty
  collection is one.
\<close>

lemma store_ok_empty: "store_ok []"
  by (simp add: store_ok_def ids_distinct_def pairs_unique_def units_nonneg_def)

lemma store_ok_replace:
  assumes "store_ok db" and "same_identity r r'" and "0 \<le> units_available r'"
  shows "store_ok (replace_doc r r' db)"
proof -
  have k: "map (\<lambda>x. (hospital_id x, blood_group x)) (replace_doc r r' db)
             = map (\<lambda>x. (hospital_id x, blood_group x)) db"
    unfolding replace_doc_def using assms(2) by (induction db) (auto simp: same_identity_def)
  have i: "ids_distinct (replace_doc r r' db)"
    using assms(1,2) by (intro ids_distinct_replace) (simp_all add: store_ok_def same_identity_def)
  have u: "units_nonneg (replace_doc r r' db)"
    using assms(1,3) by (auto simp: store_ok_def units_nonneg_def list_all_iff replace_doc_def)
  show ?thesis
    using assms(1) i u by (simp add: store_ok_def pairs_unique_def k)
qed

lemma store_ok_insert:
  assumes "store_ok db" and "findOne h bg db = None" and "0 \<le> u"
  shows "store_ok (db @ [\<lparr>inv_id = fresh_id (map inv_id db), hospital_id = h, blood_group = bg,
                           units_available = u, last_updated = now, min_threshold = 2\<rparr>])"
proof -
  have "(h, bg) \<notin> set (map (\<lambda>x. (hospital_id x, blood_group x)) db)"
    using assms(2) by (auto simp: findOne_None_iff)
  then show ?thesis
    using assms(1,3) by (simp add: store_ok_def pairs_unique_def units_nonneg_def ids_distinct_append)
qed

lemma store_ok_upsertInventory:
  "store_ok db \<Longrightarrow> store_ok (snd (upsertInventory now h bg v db))"
proof (cases "0 \<le> v")
  case False
  assume "store_ok db"
  then show ?thesis using False by (simp add: upsertInventory_def validate_units_def)
next
  case True
  assume ok: "store_ok db"
  show ?thesis
  proof (cases "findOne h bg db")
    case None
    show ?thesis
      unfolding upsert_new [OF None True] using store_ok_insert [OF ok None True] by simp
  next
    case (Some r)
    have d: "ids_distinct db" using ok by (simp add: store_ok_def)
    show ?thesis
      unfolding upsert_existing [OF d Some True]
      using store_ok_replace [OF ok, of r "r\<lparr>units_available := v, last_updated := now\<rparr>"] True
      by (simp add: same_identity_def)
  qed
qed

lemma store_ok_addUnits:
  "store_ok db \<Longrightarrow> store_ok (snd (addUnits now h bg n db))"
proof -
  assume ok: "store_ok db"
  have d: "ids_distinct db" using ok by (simp add: store_ok_def)
  show ?thesis
  proof (cases "findOne h bg db")
    case None
    show ?thesis
    proof (cases "0 \<le> n")
      case True
      show ?thesis
        unfolding add_new [OF None True] using store_ok_insert [OF ok None True] by simp
    next
      case False
      then show ?thesis using ok None by (simp add: addUnits_def create_def validate_units_def)
    qed
  next
    case (Some r)
    show ?thesis
    proof (cases "0 \<le> units_available r + n")
      case True
      show ?thesis
        unfolding add_existing [OF d Some True]
        using store_ok_replace [OF ok, of r
                "r\<lparr>units_available := to_double (units_available r + n), last_updated := now\<rparr>"]
              to_double_nonneg [OF True]
        by (simp add: same_identity_def)
    next
      case False
      then have "to_double (units_available r + n) < 0"
        by (intro to_double_neg) simp
      then show ?thesis using ok Some by (simp add: addUnits_def save_def validate_units_def)
    qed
  qed
qed

lemma store_ok_reduceUnits:
  "store_ok db \<Longrightarrow> store_ok (snd (reduceUnits now h bg n db))"
proof -
  assume ok: "store_ok db"
  have d: "ids_distinct db" using ok by (simp add: store_ok_def)
  show ?thesis
  proof (cases "findOne h bg db")
    case None
    then show ?thesis using ok by (simp add: reduceUnits_def)
  next
    case (Some r)
    show ?thesis
    proof (cases "n \<le> units_available r")
      case True
      show ?thesis
        unfolding reduce_existing [OF d Some True]
        using store_ok_replace [OF ok, of r
                "r\<lparr>units_available := to_double (units_available r - n), last_updated := now\<rparr>"]
              to_double_nonneg [of "units_available r - n"] True
        by (simp add: same_identity_def)
    next
      case False
      then show ?thesis using ok Some by (simp add: reduceUnits_def)
    qed
  qed
qed

lemma store_ok_seed:
  "store_ok db \<Longrightarrow> \<forall>bg \<in> set bgs. findOne h bg db = None \<Longrightarrow> distinct bgs \<Longrightarrow>
   store_ok (snd (seed_defaults now h bgs db))"
proof (induction bgs arbitrary: db)
  case Nil
  then show ?case by simp
next
  case (Cons bg bgs)
  let ?doc = "\<lparr>inv_id = fresh_id (map inv_id db), hospital_id = h, blood_group = bg,
                           units_available = 0, last_updated = now, min_threshold = 2\<rparr>"
  have none: "findOne h bg db = None" using Cons.prems(2) by simp
  have ok': "store_ok (db @ [?doc])"
    using store_ok_insert [OF Cons.prems(1) none, of 0 now] by simp
  have rest: "\<forall>b \<in> set bgs. findOne h b (db @ [?doc]) = None"
    using Cons.prems(2,3) by (auto simp: findOne_None_iff)
  have "distinct bgs" using Cons.prems(3) by simp
  from Cons.IH [OF ok' rest this] show ?case
    by (simp add: create_def validate_units_def Let_def)
qed

lemma store_ok_get_inventory:
  assumes "store_ok db"
  shows "store_ok (snd (get_inventory now h db))"
proof (cases "\<exists>r \<in> set db. hospital_id r = h")
  case True
  then show ?thesis using assms by (simp add: get_inventory_existing)
next
  case False
  then have none: "\<forall>bg \<in> set bloodGroups. findOne h bg db = None"
    by (auto simp: findOne_None_iff)
  have a: "\<forall>r \<in> set db. hospital_id r \<noteq> h" using False by simp
  have "snd (get_inventory now h db) = snd (seed_defaults now h bloodGroups db)"
    unfolding get_inventory_empty [OF a] seed_all by simp
  moreover have "store_ok (snd (seed_defaults now h bloodGroups db))"
    using assms none by (rule store_ok_seed) (simp add: bloodGroups_def)
  ultimately show ?thesis by simp
qed

section \<open>Donor eligibility\<close>

subsection \<open>The year of a day\<close>

text \<open>
  \<open>YearFromDay\<close> is the year of ECMA-262: the largest \<open>y\<close> whose first day is not
  after the given day.
\<close>

lemma div_bounds_pos:
  fixes x n :: int
  assumes "0 < n"
  shows "n * (x div n) \<le> x" and "x < n * (x div n) + n"
  using mult_div_mod_eq [of n x] pos_mod_sign [OF assms, of x] pos_mod_bound [OF assms, of x]
  by linarith+

lemma DayFromYear_bounds:
  "146097 * y - 287811596 \<le> 400 * DayFromYear y"
  "400 * DayFromYear y \<le> 146097 * y - 287810501"
proof -
  define a where "a = (y - 1969) div 4"
  define b where "b = (y - 1901) div 100"
  define c where "c = (y - 1601) div 400"
  have "4 * a \<le> y - 1969" "y - 1969 < 4 * a + 4"
    and "100 * b \<le> y - 1901" "y - 1901 < 100 * b + 100"
    and "400 * c \<le> y - 1601" "y - 1601 < 400 * c + 400"
    unfolding a_def b_def c_def by (rule div_bounds_pos, simp)+
  moreover have "DayFromYear y = 365 * y - 719050 + a - b + c"
    by (simp add: DayFromYear_def a_def b_def c_def)
  ultimately show "146097 * y - 287811596 \<le> 400 * DayFromYear y"
    and "400 * DayFromYear y \<le> 146097 * y - 287810501"
    by linarith+
qed

lemma DayFromYear_step: "DayFromYear y < DayFromYear (y + 1)"
proof -
  have "400 * DayFromYear (y + 1) \<ge> 146097 * y + 146097 - 287811596"
    using DayFromYear_bounds(1) [of "y + 1"] by (simp add: algebra_simps)
  then show ?thesis
    using DayFromYear_bounds(2) [of y] by linarith
qed

lemma YearFromDay_correct:
  "DayFromYear (YearFromDay d) \<le> d \<and> d < DayFromYear (YearFromDay d + 1)"
proof -
  define q where "q = (400 * d) div 146097"
  have q: "146097 * q \<le> 400 * d" "400 * d < 146097 * q + 146097"
    unfolding q_def by (rule div_bounds_pos, simp)+
  have "400 * DayFromYear (1970 + q - 1) \<le> 146097 * q - 145508"
    using DayFromYear_bounds(2) [of "1970 + q - 1"] by (simp add: algebra_simps)
  then have lo: "DayFromYear (1970 + q - 1) \<le> d"
    using q by linarith
  have "146097 * q + 146097 + 146097 - 506 \<le> 400 * DayFromYear (1970 + q + 1 + 1)"
    using DayFromYear_bounds(1) [of "1970 + q + 1 + 1"] by (simp add: algebra_simps)
  then have hi: "d < DayFromYear (1970 + q + 1 + 1)"
    using q by linarith
  show ?thesis
    unfolding YearFromDay_def Let_def q_def [symmetric] using lo hi by auto
qed

lemma DayFromYear_mono: "y \<le> z \<Longrightarrow> DayFromYear y \<le> DayFromYear z"
proof (induction z rule: int_ge_induct)
  case base
  show ?case by simp
next
  case (step i)
  then show ?case using DayFromYear_step [of i] by linarith
qed

lemma YearFromDay_largest:
  assumes "DayFromYear y \<le> d"
  shows "y \<le> YearFromDay d"
proof (rule ccontr)
  assume "\<not> y \<le> YearFromDay d"
  then have "YearFromDay d + 1 \<le> y" by simp
  then have "DayFromYear (YearFromDay d + 1) \<le> DayFromYear y"
    by (rule DayFromYear_mono)
  then show False using assms YearFromDay_correct [of d] by linarith
qed

subsection \<open>Dates of the example\<close>














subsection \<open>Three months after the last donation\<close>




section \<open>Donor reminders\<close>

subsection \<open>The cooldown query and the loop\<close>









lemma create_ok:
  "validate_message msg \<Longrightarrow>
   Notification_create did hid msg now ns =
     (Inr \<lparr>notif_id = fresh_id (map notif_id ns), donor_id = did,
            sender_hospital_id = hid, ntype = donation_reminder,
            message = msg, delivery_method = console, status = sent,
            sent_at = Some now, is_read = False\<rparr>,
      ns @ [\<lparr>notif_id = fresh_id (map notif_id ns), donor_id = did,
            sender_hospital_id = hid, ntype = donation_reminder,
            message = msg, delivery_method = console, status = sent,
            sent_at = Some now, is_read = False\<rparr>])"
  by (simp add: Notification_create_def Let_def)

lemma create_rejected:
  "\<not> validate_message msg \<Longrightarrow>
   Notification_create did hid msg now ns = (Inl ValidationFailed, ns)"
  by (simp add: Notification_create_def)











subsection \<open>Bulk reminders\<close>














subsection \<open>Single reminders\<close>

lemma single_message_length:
  "length (single_message d hn) = 76 + length (user_name d) + length hn"
  by (simp add: single_message_def)

lemma single_message_valid:
  "validate_message (single_message d hn) \<longleftrightarrow> length (user_name d) + length hn \<le> 424"
  by (auto simp: validate_message_def single_message_length) (simp add: single_message_def)

lemma findOne_castable:
  "q \<noteq> Uncastable \<Longrightarrow>
   User_findOne q r users = Inr (find (\<lambda>u. id_matches q (user_id u) \<and> role u = r) users)"
  by (cases q) (simp_all add: User_findOne_def)

lemma find_donor_None:
  "find (\<lambda>u. id_matches q (user_id u) \<and> role u = donor) users = None
     \<longleftrightarrow> \<not> (\<exists>u \<in> set users. id_matches q (user_id u) \<and> role u = donor)"
  by (auto simp: find_None_iff)

lemma fresh_not_used: "fresh_id (map notif_id ns) \<notin> notif_id ` set ns"
  using fresh_id_greater [of _ "map notif_id ns"] by fastforce

text \<open>
  Claim C5, as amended: \<open>send_single_reminder\<close> answers 400 when the request has no
  \<open>donor_id\<close>, 500 when the \<open>donor_id\<close> cannot be cast to an id, and fails with NotFound
  exactly when the \<open>donor_id\<close> can be cast and matches no user with the donor role. When
  it matches a donor, the call is for the first such user. If the donor's name and the
  hospital's name together are at most 424 characters long, so that the message fits the
  500 characters that the notification schema allows, the call creates a new
  NotificationRecord whatever notifications exist already: there is no cooldown check,
  and two calls for the same pair, at the same time or not, both succeed and leave two
  distinct records. If the names are longer, the call answers 500 and stores nothing.
\<close>

theorem single_reminder_no_cooldown:
  "(fst (post_reminders_send_single now H arg users ns) = Inl (404, DonorNotFound)
      \<longleftrightarrow> (case arg of
             None \<Rightarrow> False
           | Some q \<Rightarrow> q \<noteq> Uncastable
               \<and> \<not> (\<exists>u \<in> set users. id_matches q (user_id u) \<and> role u = donor)))
   \<and> post_reminders_send_single now H None users ns = (Inl (400, DonorIdRequired), ns)
   \<and> post_reminders_send_single now H (Some Uncastable) users ns = (Inl (500, ServerError), ns)
   \<and> (find (\<lambda>u. id_matches q (user_id u) \<and> role u = donor) users = Some d
        \<and> length (user_name d) + length (hospital_display_name H) \<le> 424 \<longrightarrow>
        (\<exists>n. post_reminders_send_single now H (Some q) users ns
                = (Inr (user_name d, email d), ns @ [n])
             \<and> n \<notin> set ns \<and> donor_id n = user_id d \<and> id_matches q (donor_id n)
             \<and> sender_hospital_id n = user_id H
             \<and> ntype n = donation_reminder \<and> status n = sent \<and> sent_at n = Some now)
        \<and> (\<exists>n1 n2. post_reminders_send_single now H (Some q) users ns
                = (Inr (user_name d, email d), ns @ [n1])
             \<and> post_reminders_send_single now' H (Some q) users (ns @ [n1])
                = (Inr (user_name d, email d), ns @ [n1, n2])
             \<and> n1 \<noteq> n2 \<and> donor_id n2 = user_id d \<and> sender_hospital_id n2 = user_id H
             \<and> sent_at n1 = Some now \<and> sent_at n2 = Some now'))
   \<and> (find (\<lambda>u. id_matches q (user_id u) \<and> role u = donor) users = Some d
        \<and> 424 < length (user_name d) + length (hospital_display_name H) \<longrightarrow>
        post_reminders_send_single now H (Some q) users ns = (Inl (500, ServerError), ns))"
proof (intro conjI impI)
  show "fst (post_reminders_send_single now H arg users ns) = Inl (404, DonorNotFound)
      \<longleftrightarrow> (case arg of
             None \<Rightarrow> False
           | Some q \<Rightarrow> q \<noteq> Uncastable
               \<and> \<not> (\<exists>u \<in> set users. id_matches q (user_id u) \<and> role u = donor))"
  proof (cases arg)
    case None
    then show ?thesis by (simp add: post_reminders_send_single_def)
  next
    case (Some q)
    show ?thesis
    proof (cases "q = Uncastable")
      case True
      then show ?thesis
        using Some by (simp add: post_reminders_send_single_def User_findOne_def)
    next
      case False
      show ?thesis
        unfolding Some find_donor_None [symmetric]
        using False
        by (auto simp: post_reminders_send_single_def findOne_castable
              split: option.splits prod.splits sum.splits)
    qed
  qed
  show "post_reminders_send_single now H None users ns = (Inl (400, DonorIdRequired), ns)"
    by (simp add: post_reminders_send_single_def)
  show "post_reminders_send_single now H (Some Uncastable) users ns
          = (Inl (500, ServerError), ns)"
    by (simp add: post_reminders_send_single_def User_findOne_def)
next
  assume a: "find (\<lambda>u. id_matches q (user_id u) \<and> role u = donor) users = Some d
        \<and> length (user_name d) + length (hospital_display_name H) \<le> 424"
  then have v: "validate_message (single_message d (hospital_display_name H))"
    by (simp add: single_message_valid)
  have m: "id_matches q (user_id d)"
    using a by (auto simp: find_Some_iff)
  then have c: "q \<noteq> Uncastable"
    by auto
  let ?mk = "\<lambda>t ms. \<lparr>notif_id = fresh_id (map notif_id ms), donor_id = user_id d,
            sender_hospital_id = user_id H, ntype = donation_reminder,
            message = single_message d (hospital_display_name H),
            delivery_method = console, status = sent,
            sent_at = Some t, is_read = False\<rparr>"
  have run: "post_reminders_send_single t H (Some q) users ms
                = (Inr (user_name d, email d), ms @ [?mk t ms])" for t ms
    using a by (simp add: post_reminders_send_single_def findOne_castable [OF c] create_ok [OF v])
  have new: "?mk t ms \<notin> set ms" for t ms
    using fresh_not_used by force
  show "\<exists>n. post_reminders_send_single now H (Some q) users ns
                = (Inr (user_name d, email d), ns @ [n])
             \<and> n \<notin> set ns \<and> donor_id n = user_id d \<and> id_matches q (donor_id n)
             \<and> sender_hospital_id n = user_id H
             \<and> ntype n = donation_reminder \<and> status n = sent \<and> sent_at n = Some now"
    using new m by (intro exI [of _ "?mk now ns"]) (simp add: run)
  have "?mk now' (ns @ [?mk now ns]) \<notin> set (ns @ [?mk now ns])"
    by (rule new)
  then have "?mk now ns \<noteq> ?mk now' (ns @ [?mk now ns])"
    by auto
  then show "\<exists>n1 n2. post_reminders_send_single now H (Some q) users ns
                = (Inr (user_name d, email d), ns @ [n1])
             \<and> post_reminders_send_single now' H (Some q) users (ns @ [n1])
                = (Inr (user_name d, email d), ns @ [n1, n2])
             \<and> n1 \<noteq> n2 \<and> donor_id n2 = user_id d \<and> sender_hospital_id n2 = user_id H
             \<and> sent_at n1 = Some now \<and> sent_at n2 = Some now'"
    by (intro exI [of _ "?mk now ns"] exI [of _ "?mk now' (ns @ [?mk now ns])"])
       (simp add: run)
next
  assume a: "find (\<lambda>u. id_matches q (user_id u) \<and> role u = donor) users = Some d
        \<and> 424 < length (user_name d) + length (hospital_display_name H)"
  then have v: "\<not> validate_message (single_message d (hospital_display_name H))"
    by (simp add: single_message_valid)
  have "id_matches q (user_id d)"
    using a by (auto simp: find_Some_iff)
  then have c: "q \<noteq> Uncastable"
    by auto
  show "post_reminders_send_single now H (Some q) users ns = (Inl (500, ServerError), ns)"
    using a by (simp add: post_reminders_send_single_def findOne_castable [OF c]
                  create_rejected [OF v])
qed

theorem single_reminder_no_cooldown_witness:
  "find (\<lambda>u. id_matches (ObjectId 2) (user_id u) \<and> role u = donor) reminder_users = Some asha
   \<and> length (user_name asha) + length (hospital_display_name city_hospital) \<le> 424
   \<and> (\<exists>n1 n2. post_reminders_send_single 5 city_hospital (Some (ObjectId 2)) reminder_users []
                = (Inr (''Asha'', ''asha@mail.example''), [n1])
             \<and> post_reminders_send_single 5 city_hospital (Some (ObjectId 2)) reminder_users [n1]
                = (Inr (''Asha'', ''asha@mail.example''), [n1, n2])
             \<and> n1 \<noteq> n2)
   \<and> fst (post_reminders_send_single 5 city_hospital (Some (ObjectId 3)) reminder_users [])
       = Inl (404, DonorNotFound)
   \<and> 424 < length (user_name asha) + length (hospital_display_name long_named_hospital)
   \<and> post_reminders_send_single 5 long_named_hospital (Some (ObjectId 2)) reminder_users []
       = (Inl (500, ServerError), [])"
proof -
  have f: "find (\<lambda>u. id_matches (ObjectId 2) (user_id u) \<and> role u = donor) reminder_users
             = Some asha"
    by (simp add: reminder_users_def city_hospital_def asha_def ravi_def)
  have l: "length (user_name asha) + length (hospital_display_name city_hospital) \<le> 424"
    by (simp add: asha_def city_hospital_def hospital_display_name_def)
  have g: "424 < length (user_name asha) + length (hospital_display_name long_named_hospital)"
    by (simp add: asha_def long_named_hospital_def city_hospital_def hospital_display_name_def)
  have nf: "case Some (ObjectId 3) of
              None \<Rightarrow> False
            | Some q \<Rightarrow> q \<noteq> Uncastable
                \<and> \<not> (\<exists>u \<in> set reminder_users. id_matches q (user_id u) \<and> role u = donor)"
    by (simp add: reminder_users_def city_hospital_def asha_def ravi_def)
  have nm: "user_name asha = ''Asha''" "email asha = ''asha@mail.example''"
    by (simp_all add: asha_def)
  note t = single_reminder_no_cooldown [of 5 _ _ reminder_users "[]" "ObjectId 2" asha 5]
  note two = t [of city_hospital None, THEN conjunct2, THEN conjunct2, THEN conjunct2,
                THEN conjunct1, THEN mp, OF conjI [OF f l], THEN conjunct2]
  from two
  have a: "\<exists>n1 n2. post_reminders_send_single 5 city_hospital (Some (ObjectId 2)) reminder_users []
                = (Inr (''Asha'', ''asha@mail.example''), [n1])
             \<and> post_reminders_send_single 5 city_hospital (Some (ObjectId 2)) reminder_users [n1]
                = (Inr (''Asha'', ''asha@mail.example''), [n1, n2])
             \<and> n1 \<noteq> n2"
    unfolding nm by (simp del: One_nat_def) blast
  from t [of city_hospital "Some (ObjectId 3)", THEN conjunct1] nf
  have b: "fst (post_reminders_send_single 5 city_hospital (Some (ObjectId 3)) reminder_users [])
       = Inl (404, DonorNotFound)"
    by (rule iffD2)
  note c = t [of long_named_hospital None, THEN conjunct2, THEN conjunct2, THEN conjunct2,
              THEN conjunct2, THEN mp, OF conjI [OF f g]]
  from f l a b g c show ?thesis by (intro conjI)
qed

text \<open>
  The claim as first stated lets the call succeed whenever the donor exists, and answer
  NotFound whenever the \<open>donor_id\<close> resolves to no donor. For a hospital whose name has
  450 characters the message is longer than the schema allows, \<open>Notification.create\<close>
  throws, and the route answers 500 and stores nothing. And a \<open>donor_id\<close> that is no id
  resolves to no user, but \<open>User.findOne\<close> throws, and the route answers 500, not 404.
\<close>

theorem single_reminder_long_name_counterexample:
  "post_reminders_send_single 0 long_named_hospital (Some (ObjectId 2)) reminder_users []
     = (Inl (500, ServerError), [])
   \<and> find (\<lambda>u. id_matches (ObjectId 2) (user_id u) \<and> role u = donor) reminder_users
       = Some asha
   \<and> post_reminders_send_single 0 city_hospital (Some Uncastable) reminder_users []
     = (Inl (500, ServerError), [])
   \<and> filter (\<lambda>u. id_matches Uncastable (user_id u) \<and> role u = donor) reminder_users = []"
  by (simp add: post_reminders_send_single_def User_findOne_def long_named_hospital_def
        city_hospital_def reminder_users_def asha_def ravi_def hospital_display_name_def
        create_rejected single_message_valid)

section \<open>Hospital search\<close>

subsection \<open>The two tiers\<close>

text \<open>
  For a term of ordinary characters the pattern is the text itself and the code agrees
  with the search as specified; the result is sorted by name in both tiers and holds
  active hospitals only.
\<close>

lemma match_here_literal: "CHR ''.'' \<notin> set p \<Longrightarrow> match_here p s = prefix_ci p s"
  by (induction p s rule: match_here.induct) auto

lemma regex_search_literal: "CHR ''.'' \<notin> set p \<Longrightarrow> regex_search p = contains_ci p"
proof
  fix s
  assume "CHR ''.'' \<notin> set p"
  then show "regex_search p s = contains_ci p s"
    by (induction s) (auto simp: match_here_literal)
qed

lemma sort_key_Nil_iff: "(sort_key f xs = []) = (xs = [])"
  by (metis length_sort length_0_conv)

lemma search_literal_term:
  assumes "literal_term (trim (toLowerCase searchTerm))"
  shows "searchByLocation searchTerm db = Some (search_by_location_spec searchTerm db)"
proof -
  let ?t = "trim (toLowerCase searchTerm)"
  have r: "RegExp_i ?t = Some (regex_search ?t)"
    using assms by (auto simp: RegExp_i_def literal_term_def list_ex_iff)
  have d: "CHR ''.'' \<notin> set ?t"
    using assms by (auto simp: literal_term_def list_ex_iff)
  show ?thesis
    by (simp add: searchByLocation_def search_by_location_spec_def Let_def r
          regex_search_literal [OF d])
qed

lemma search_sorted_by_name:
  "searchByLocation searchTerm db = Some hs \<Longrightarrow> sorted (map name hs)"
  by (auto simp: searchByLocation_def Let_def split: if_splits option.splits)

lemma search_only_active:
  "searchByLocation searchTerm db = Some hs \<Longrightarrow> \<forall>h \<in> set hs. isActive h"
  by (auto simp: searchByLocation_def Let_def split: if_splits option.splits)

lemma search_exact_first:
  assumes "\<exists>h \<in> set db. city h = trim (toLowerCase searchTerm) \<and> isActive h"
  shows "searchByLocation searchTerm db
           = Some (sort_key name
                (filter (\<lambda>h. city h = trim (toLowerCase searchTerm) \<and> isActive h) db))"
proof -
  have "filter (\<lambda>h. city h = trim (toLowerCase searchTerm) \<and> isActive h) db \<noteq> []"
    using assms by (simp add: filter_empty_conv)
  then show ?thesis
    by (simp add: searchByLocation_def Let_def sort_key_Nil_iff)
qed

lemma normalized_examples:
  "trim (toLowerCase ''.'') = ''.''"
  "trim (toLowerCase ''p.ne'') = ''p.ne''"
  by (simp_all add: trim_def toLowerCase_def lower_char_def is_space_def)

lemma wildcard_regex:
  "RegExp_i ''.'' = Some (regex_search ''.'')"
  "RegExp_i ''p.ne'' = Some (regex_search ''p.ne'')"
  by (simp_all add: RegExp_i_def regex_syntax_def)

lemma wildcard_matches:
  "regex_search ''.'' ''pune''"
  "regex_search ''p.ne'' ''pune''"
  by (simp_all add: lower_char_def)

lemma no_literal_dot:
  "\<not> contains_ci ''.'' ''pune''"
  "\<not> contains_ci ''.'' ''30 Karve Road''"
  "\<not> contains_ci ''.'' ''Maharashtra''"
  "\<not> contains_ci ''p.ne'' ''pune''"
  "\<not> contains_ci ''p.ne'' ''30 Karve Road''"
  "\<not> contains_ci ''p.ne'' ''Maharashtra''"
  by (simp_all add: lower_char_def)

subsection \<open>A term that is a pattern\<close>

text \<open>
  Claim C9 makes the fallback a case-insensitive substring match over city, address and
  state. The code hands the normalized term to \<open>new RegExp\<close> unescaped, so a term with a
  character of the regular-expression syntax is not looked for as text. For the term
  \<open>.\<close>, and for \<open>p.ne\<close>, and one active hospital in Pune, none of whose fields
  contains a full stop, \<open>searchByLocation\<close> finds no exact match on the city, falls back
  and returns the hospital, where the search as the claim words it returns nothing.
\<close>

theorem search_wildcard_term:
  "searchByLocation ''.'' [pune_hospital] = Some [pune_hospital]
   \<and> \<not> contains_ci ''.'' (city pune_hospital)
   \<and> \<not> contains_ci ''.'' (address pune_hospital)
   \<and> \<not> contains_ci ''.'' ''Maharashtra''
   \<and> search_by_location_spec ''.'' [pune_hospital] = []
   \<and> searchByLocation ''p.ne'' [pune_hospital] = Some [pune_hospital]
   \<and> search_by_location_spec ''p.ne'' [pune_hospital] = []"
  by (simp add: searchByLocation_def search_by_location_spec_def normalized_examples
        wildcard_regex wildcard_matches no_literal_dot pune_hospital_def Let_def
        del: contains_ci.simps regex_search.simps)

end
